theory Spec2Isabelle
  imports Main "HOL-Library.Sublist"
begin

section \<open>Data model of AssetEventMetadataEntriesTable.tsx\<close>

text \<open>
  The component receives an event, a list of observations and the definition-time
  metadata of an asset, and shows their metadata entries in one table. JavaScript
  numbers are modelled as \<open>int\<close>: the numbers this component computes with are row counts
  and array lengths. An optional property (\<open>x?: T\<close>, \<open>T | null\<close>) is an \<open>option\<close>, with
  \<open>None\<close> for the absent value.
\<close>

text \<open>
  \<open>MetadataEntryFragment\<close>: the component reads \<open>label\<close> and \<open>description\<close>; the GraphQL
  type name and the value carried by the entry are what the imported predicates inspect.
\<close>

record 'v MetadataEntryFragment =
  typename :: string
  label :: string
  description :: "string option"
  payload :: 'v

text \<open>\<open>timestamp?: string | number\<close>\<close>

datatype timestamp = TsString string | TsNumber int

text \<open>\<open>TableEvent\<close> (lines 31-54); \<open>runOrError\<close> only selects a link target and is left out.\<close>

record 'v TableEvent =
  metadataEntries :: "'v MetadataEntryFragment list"
  timestamp :: "timestamp option"
  runId :: "string option"

text \<open>
  A row of the table, as the object literals of lines 103-108, 112-117 and 120-125 build
  it. The \<open>runId\<close> of a row is the literal \<open>null\<close>, or whatever the observation has in
  its optional \<open>runId\<close> property.
\<close>

datatype icon = materialization | observation | asset

datatype 'a nullable = JsNull | JsValue 'a

record 'v row =
  icon :: icon
  timestamp :: "timestamp option"
  runId :: "string option nullable"
  entry :: "'v MetadataEntryFragment"

section \<open>lodash \<open>uniqBy\<close>\<close>

text \<open>
  \<open>uniqBy(array, iteratee)\<close> walks the array from the left with a list of the keys seen
  so far; a value whose key is not among them is pushed to the result and its key to the
  seen list. Keys are compared with SameValueZero, which on strings is equality.
\<close>

fun baseUniq :: "('a \<Rightarrow> 'k) \<Rightarrow> 'k list \<Rightarrow> 'a list \<Rightarrow> 'a list" where
  "baseUniq iteratee seen [] = []"
| "baseUniq iteratee seen (x # xs) =
     (if iteratee x \<in> set seen then baseUniq iteratee seen xs
      else x # baseUniq iteratee (iteratee x # seen) xs)"

definition uniqBy :: "'a list \<Rightarrow> ('a \<Rightarrow> 'k) \<Rightarrow> 'a list" where
  "uniqBy array iteratee = baseUniq iteratee [] array"

section \<open>\<open>allRows\<close> (lines 101-128)\<close>

definition eventRows :: "'v TableEvent option \<Rightarrow> 'v row list" where
  "eventRows event =
     (case event of
        None \<Rightarrow> []
      | Some ev \<Rightarrow>
          map (\<lambda>e. \<lparr>icon = materialization, timestamp = TableEvent.timestamp ev,
                     runId = JsNull, entry = e\<rparr>)
              (metadataEntries ev))"

definition observationRows :: "'v TableEvent list option \<Rightarrow> 'v row list" where
  "observationRows observations =
     concat (map (\<lambda>ob. map (\<lambda>e. \<lparr>icon = observation, timestamp = TableEvent.timestamp ob,
                                   runId = JsValue (TableEvent.runId ob), entry = e\<rparr>)
                           (metadataEntries ob))
                 (case observations of None \<Rightarrow> [] | Some os \<Rightarrow> os))"

definition definitionRows ::
  "'v MetadataEntryFragment list option \<Rightarrow> int option \<Rightarrow> 'v row list" where
  "definitionRows definitionMetadata definitionLoadTimestamp =
     map (\<lambda>e. \<lparr>icon = asset, timestamp = map_option TsNumber definitionLoadTimestamp,
                runId = JsNull, entry = e\<rparr>)
         (case definitionMetadata of None \<Rightarrow> [] | Some ds \<Rightarrow> ds)"

definition allRows ::
  "'v TableEvent option \<Rightarrow> 'v TableEvent list option \<Rightarrow>
   'v MetadataEntryFragment list option \<Rightarrow> int option \<Rightarrow> 'v row list" where
  "allRows event observations definitionMetadata definitionLoadTimestamp =
     uniqBy (observationRows observations @ eventRows event
               @ definitionRows definitionMetadata definitionLoadTimestamp)
            (\<lambda>e. label (entry e))"

text \<open>
  The specification's wording of the de-duplication: of the rows of a sequence, the one
  at position \<open>i\<close> survives exactly when no earlier position holds a row with the same
  key, and the survivors keep their order.
\<close>

definition keepFirstOccurrence :: "('a \<Rightarrow> 'k) \<Rightarrow> 'a list \<Rightarrow> 'a list" where
  "keepFirstOccurrence key xs =
     map (\<lambda>i. xs ! i)
         (filter (\<lambda>i. key (xs ! i) \<notin> key ` set (take i xs)) [0..<length xs])"

text \<open>The first row of a sequence that carries a given label, if there is one.\<close>

definition rowLabelled :: "string \<Rightarrow> 'v row list \<Rightarrow> 'v row option" where
  "rowLabelled l rows = find (\<lambda>r. label (entry r) = l) rows"

text \<open>
  The priority ordering of the specification: the row that stands for a label is the
  first observation row with it; failing that, the first row of the current event;
  failing that, the first definition row.
\<close>

definition winner ::
  "string \<Rightarrow> 'v TableEvent option \<Rightarrow> 'v TableEvent list option \<Rightarrow>
   'v MetadataEntryFragment list option \<Rightarrow> int option \<Rightarrow> 'v row option" where
  "winner l ev obs defs ts =
     (case rowLabelled l (observationRows obs) of
        Some r \<Rightarrow> Some r
      | None \<Rightarrow>
          (case rowLabelled l (eventRows ev) of
             Some r \<Rightarrow> Some r
           | None \<Rightarrow> rowLabelled l (definitionRows defs ts)))"

section \<open>\<open>filteredRows\<close> (lines 130-141)\<close>

text \<open>
  A label is a \<open>string\<close>; nothing below depends on the width of a character.
  \<open>s.includes(t)\<close> searches \<open>t\<close> in \<open>s\<close> from position 0.
\<close>

fun includes_str :: "string \<Rightarrow> string \<Rightarrow> bool" where
  "includes_str [] searchString = (searchString = [])"
| "includes_str (c # s) searchString =
     (prefix searchString (c # s) \<or> includes_str s searchString)"

text \<open>
  What the file imports and does not define: the set \<open>HIDDEN_METADATA_ENTRY_LABELS\<close> of
  \<open>../metadata/MetadataEntry\<close>, the two predicates of \<open>../metadata/TableSchema\<close>, and the
  Unicode case mapping behind \<open>String.prototype.toLowerCase\<close>. They are parameters of the
  model.
\<close>

record 'v env =
  HIDDEN_METADATA_ENTRY_LABELS :: "string set"
  isCanonicalColumnSchemaEntry :: "'v MetadataEntryFragment \<Rightarrow> bool"
  isCanonicalColumnLineageEntry :: "'v MetadataEntryFragment \<Rightarrow> bool"
  toLowerCase :: "string \<Rightarrow> string"

text \<open>\<open>!filter\<close>: the empty string is the only falsy string.\<close>

definition truthy_string :: "string \<Rightarrow> bool" where
  "truthy_string s = (s \<noteq> [])"

text \<open>\<open>hideTableSchema?: boolean\<close> in a boolean context.\<close>

definition truthy_flag :: "bool option \<Rightarrow> bool" where
  "truthy_flag b = (b = Some True)"

text \<open>The first \<open>.filter\<close> (line 133): the substring match against the filter text.\<close>

definition labelMatches :: "'v env \<Rightarrow> string \<Rightarrow> 'v row \<Rightarrow> bool" where
  "labelMatches env filterText r =
     (\<not> truthy_string filterText \<or>
      includes_str (toLowerCase env (label (entry r))) (toLowerCase env filterText))"

text \<open>The second \<open>.filter\<close> (lines 134-139): the fixed exclusions.\<close>

definition notExcluded :: "'v env \<Rightarrow> bool option \<Rightarrow> 'v row \<Rightarrow> bool" where
  "notExcluded env hideTableSchema r =
     (label (entry r) \<notin> HIDDEN_METADATA_ENTRY_LABELS env \<and>
      \<not> (isCanonicalColumnSchemaEntry env (entry r) \<and> truthy_flag hideTableSchema) \<and>
      \<not> isCanonicalColumnLineageEntry env (entry r))"

definition filteredRows ::
  "'v env \<Rightarrow> 'v row list \<Rightarrow> string \<Rightarrow> bool option \<Rightarrow> 'v row list" where
  "filteredRows env rows filterText hideTableSchema =
     filter (notExcluded env hideTableSchema) (filter (labelMatches env filterText) rows)"

text \<open>
  The specification's reading of the match: the lower-cased label has the lower-cased
  filter text as a contiguous part.
\<close>

definition containsIgnoringCase :: "'v env \<Rightarrow> string \<Rightarrow> string \<Rightarrow> bool" where
  "containsIgnoringCase env l filterText =
     (\<exists>before after. toLowerCase env l = before @ toLowerCase env filterText @ after)"

text \<open>A filter text made of white space only (tab, line feed, vertical tab, form feed,
  carriage return, space).\<close>

definition whitespaceOnly :: "string \<Rightarrow> bool" where
  "whitespaceOnly s =
     list_all (\<lambda>c. c \<in> set [CHR 0x09, CHR 0x0A, CHR 0x0B, CHR 0x0C, CHR 0x0D, CHR 0x20]) s"

section \<open>State, pagination and rendering (lines 91-96, 143-145, 191-262)\<close>

datatype view = Table | Plots

datatype plotView = Partition | Time

text \<open>The four \<open>useState\<close> cells. The cell \<open>filter\<close> is named \<open>filterText\<close> here.\<close>

record state =
  filterText :: string
  displayedCount :: int
  view :: view
  plotView :: plotView

text \<open>\<open>React.ReactNode\<close>, as far as its truthiness goes.\<close>

datatype 'el ReactNode =
  RUndefined | RNull | RBoolean bool | RNumber int | RString string | RElement 'el

fun truthy_node :: "'el ReactNode \<Rightarrow> bool" where
  "truthy_node RUndefined = False"
| "truthy_node RNull = False"
| "truthy_node (RBoolean b) = b"
| "truthy_node (RNumber n) = (n \<noteq> 0)"
| "truthy_node (RString s) = (s \<noteq> [])"
| "truthy_node (RElement e) = True"

text \<open>The properties of \<open>Props\<close> that decide which rows and which controls are shown.\<close>

record ('v, 'el) Props =
  event :: "'v TableEvent option"
  observations :: "'v TableEvent list option"
  definitionMetadata :: "'v MetadataEntryFragment list option"
  definitionLoadTimestamp :: "int option"
  assetHasDefinedPartitions :: "bool option"
  showFilter :: "bool option"
  hideTableSchema :: "bool option"
  displayedByDefault :: "int option"
  emptyState :: "'el ReactNode"

text \<open>\<open>displayedByDefault = 100\<close> in the parameter list (line 88).\<close>

definition displayedByDefaultOf :: "('v, 'el) Props \<Rightarrow> int" where
  "displayedByDefaultOf p = (case displayedByDefault p of None \<Rightarrow> 100 | Some n \<Rightarrow> n)"

definition MAX_SAFE_INTEGER :: int where
  "MAX_SAFE_INTEGER = 9007199254740991"

definition initialState :: "('v, 'el) Props \<Rightarrow> state" where
  "initialState p =
     \<lparr>filterText = [], displayedCount = displayedByDefaultOf p, view = Table,
      plotView = (if truthy_flag (assetHasDefinedPartitions p) then Partition else Time)\<rparr>"

text \<open>
  \<open>Array.prototype.slice(start, end)\<close> on integers: a negative index counts from the end
  of the array, and both indices are clamped to the array.
\<close>

definition slice :: "'a list \<Rightarrow> int \<Rightarrow> int \<Rightarrow> 'a list" where
  "slice xs start end' =
     (let len = int (length xs);
          k = (if start < 0 then max (len + start) 0 else min start len);
          final = (if end' < 0 then max (len + end') 0 else min end' len)
      in take (nat (final - k)) (drop (nat k) xs))"

text \<open>The rows of \<open>tbody\<close> (lines 205-245).\<close>

datatype 'v tr = NoMetadataEntries | MetadataRow "'v row"

definition tbody :: "'v row list \<Rightarrow> int \<Rightarrow> 'v tr list" where
  "tbody rows count =
     (if length rows = 0 then [NoMetadataEntries] else [])
     @ map MetadataRow (slice rows 0 count)"

text \<open>The button under the table (lines 248-260); \<open>ShowMore n\<close> reads "Show n more".\<close>

datatype button = ShowMore int | ShowLess | NoButton

definition footer :: "int \<Rightarrow> int \<Rightarrow> 'v row list \<Rightarrow> button" where
  "footer byDefault count rows =
     (if count < int (length rows) then ShowMore (int (length rows) - count)
      else if count > byDefault then ShowLess
      else NoButton)"

text \<open>The number of rows announced as not shown: that of "Show n more", none without it.\<close>

fun remainder :: "button \<Rightarrow> int" where
  "remainder (ShowMore n) = n"
| "remainder ShowLess = 0"
| "remainder NoButton = 0"

record 'v tableView =
  body :: "'v tr list"
  button :: button

text \<open>
  What the component returns: the empty state, or the fragment with the filter bar
  (when \<open>showFilter\<close>), the table (in the table view) and the plots (in the plots view).
\<close>

datatype ('v, 'el) rendered =
  EmptyState "'el ReactNode"
| Fragment bool "'v tableView option" "plotView option"

definition allRowsOf :: "('v, 'el) Props \<Rightarrow> 'v row list" where
  "allRowsOf p =
     allRows (event p) (observations p) (definitionMetadata p) (definitionLoadTimestamp p)"

definition filteredRowsOf :: "'v env \<Rightarrow> ('v, 'el) Props \<Rightarrow> state \<Rightarrow> 'v row list" where
  "filteredRowsOf env p s =
     filteredRows env (allRowsOf p) (filterText s) (hideTableSchema p)"

definition render :: "'v env \<Rightarrow> ('v, 'el) Props \<Rightarrow> state \<Rightarrow> ('v, 'el) rendered" where
  "render env p s =
     (if truthy_node (emptyState p) \<and> length (allRowsOf p) = 0 then EmptyState (emptyState p)
      else Fragment (truthy_flag (showFilter p))
             (if view s = Table
              then Some \<lparr>body = tbody (filteredRowsOf env p s) (displayedCount s),
                         button = footer (displayedByDefaultOf p) (displayedCount s)
                                    (filteredRowsOf env p s)\<rparr>
              else None)
             (if view s = Plots then Some (plotView s) else None))"

text \<open>The user's actions and their handlers (lines 164, 171, 182, 250, 256).\<close>

datatype action =
  ChangeFilter string | ClickView view | ClickPlotView plotView
| ClickShowMore | ClickShowLess

fun handler :: "('v, 'el) Props \<Rightarrow> state \<Rightarrow> action \<Rightarrow> state" where
  "handler p s (ChangeFilter v) = s\<lparr>filterText := v\<rparr>"
| "handler p s (ClickView v) = s\<lparr>view := v\<rparr>"
| "handler p s (ClickPlotView v) = s\<lparr>plotView := v\<rparr>"
| "handler p s ClickShowMore = s\<lparr>displayedCount := MAX_SAFE_INTEGER\<rparr>"
| "handler p s ClickShowLess = s\<lparr>displayedCount := displayedByDefaultOf p\<rparr>"

text \<open>An action is possible when the rendered output holds its control.\<close>

fun offered :: "('v, 'el) rendered \<Rightarrow> action \<Rightarrow> bool" where
  "offered (EmptyState e) a = False"
| "offered (Fragment bar t pl) (ChangeFilter v) = (bar \<and> t \<noteq> None)"
| "offered (Fragment bar t pl) (ClickView v) = bar"
| "offered (Fragment bar t pl) (ClickPlotView v) = (bar \<and> t = None)"
| "offered (Fragment bar t pl) ClickShowMore =
     (case t of None \<Rightarrow> False
      | Some tv \<Rightarrow> (case button tv of ShowMore n \<Rightarrow> True | ShowLess \<Rightarrow> False | NoButton \<Rightarrow> False))"
| "offered (Fragment bar t pl) ClickShowLess =
     (case t of None \<Rightarrow> False
      | Some tv \<Rightarrow> (case button tv of ShowMore n \<Rightarrow> False | ShowLess \<Rightarrow> True | NoButton \<Rightarrow> False))"

definition step :: "'v env \<Rightarrow> ('v, 'el) Props \<Rightarrow> state \<Rightarrow> action \<Rightarrow> state" where
  "step env p s a = (if offered (render env p s) a then handler p s a else s)"

definition run :: "'v env \<Rightarrow> ('v, 'el) Props \<Rightarrow> action list \<Rightarrow> state" where
  "run env p as = foldl (step env p) (initialState p) as"

text \<open>
  The same with properties that change between renders: every action comes with the
  properties of the render it is made on, whose output offers it and whose handler runs.
\<close>

definition runWith ::
  "'v env \<Rightarrow> ('v, 'el) Props \<Rightarrow> (('v, 'el) Props \<times> action) list \<Rightarrow> state" where
  "runWith env p0 pas = foldl (\<lambda>s (p, a). step env p s a) (initialState p0) pas"

text \<open>
  What a rendered table shows of the pagination: the number of metadata rows in its body
  and the number its button announces as not shown.
\<close>

fun isMetadataRow :: "'v tr \<Rightarrow> bool" where
  "isMetadataRow NoMetadataEntries = False"
| "isMetadataRow (MetadataRow r) = True"

fun prefixAndRemainder :: "('v, 'el) rendered \<Rightarrow> (nat \<times> int) option" where
  "prefixAndRemainder (EmptyState e) = None"
| "prefixAndRemainder (Fragment bar None pl) = None"
| "prefixAndRemainder (Fragment bar (Some tv) pl) =
     Some (length (filter isMetadataRow (body tv)), remainder (button tv))"

text \<open>
  The metadata rows a table body holds, in order, and with them what a rendered table
  shows of the pagination: the rows themselves and the number announced as not shown.
\<close>

fun rowsOfBody :: "'v tr list \<Rightarrow> 'v row list" where
  "rowsOfBody [] = []"
| "rowsOfBody (NoMetadataEntries # trs) = rowsOfBody trs"
| "rowsOfBody (MetadataRow r # trs) = r # rowsOfBody trs"

fun paginated :: "('v, 'el) rendered \<Rightarrow> ('v row list \<times> int) option" where
  "paginated (EmptyState e) = None"
| "paginated (Fragment bar None pl) = None"
| "paginated (Fragment bar (Some tv) pl) = Some (rowsOfBody (body tv), remainder (button tv))"

section \<open>The inputs of the merge, by provenance\<close>

definition entriesOfEvent :: "'v TableEvent option \<Rightarrow> 'v MetadataEntryFragment list" where
  "entriesOfEvent ev = (case ev of None \<Rightarrow> [] | Some e \<Rightarrow> metadataEntries e)"

definition entriesOfObservations ::
  "'v TableEvent list option \<Rightarrow> 'v MetadataEntryFragment list" where
  "entriesOfObservations obs =
     concat (map metadataEntries (case obs of None \<Rightarrow> [] | Some os \<Rightarrow> os))"

definition entriesOfDefinition ::
  "'v MetadataEntryFragment list option \<Rightarrow> 'v MetadataEntryFragment list" where
  "entriesOfDefinition defs = (case defs of None \<Rightarrow> [] | Some ds \<Rightarrow> ds)"

text \<open>The entries one provenance tier contributes, in input order.\<close>

definition tierInput ::
  "icon \<Rightarrow> 'v TableEvent option \<Rightarrow> 'v TableEvent list option \<Rightarrow>
   'v MetadataEntryFragment list option \<Rightarrow> 'v MetadataEntryFragment list" where
  "tierInput t ev obs defs =
     (case t of
        observation \<Rightarrow> entriesOfObservations obs
      | materialization \<Rightarrow> entriesOfEvent ev
      | asset \<Rightarrow> entriesOfDefinition defs)"

text \<open>The total number of input rows.\<close>

definition inputRowCount ::
  "'v TableEvent option \<Rightarrow> 'v TableEvent list option \<Rightarrow>
   'v MetadataEntryFragment list option \<Rightarrow> nat" where
  "inputRowCount ev obs defs =
     length (entriesOfObservations obs) + length (entriesOfEvent ev)
       + length (entriesOfDefinition defs)"

text \<open>The rows of a sequence that come from one tier; the icon of a row records its tier.\<close>

definition tierOf :: "icon \<Rightarrow> 'v row list \<Rightarrow> 'v row list" where
  "tierOf t rows = filter (\<lambda>r. icon r = t) rows"

text \<open>The row of an entry of an observation (lines 112-117).\<close>

definition observationRow :: "'v TableEvent \<Rightarrow> 'v MetadataEntryFragment \<Rightarrow> 'v row" where
  "observationRow ob e =
     \<lparr>icon = observation, timestamp = TableEvent.timestamp ob,
      runId = JsValue (TableEvent.runId ob), entry = e\<rparr>"

text \<open>
  The source observation of a label: the first observation, in the order of the
  \<open>observations\<close> property, that has an entry with this label.
\<close>

definition sourceObservation :: "string \<Rightarrow> 'v TableEvent list option \<Rightarrow> 'v TableEvent option" where
  "sourceObservation l obs =
     find (\<lambda>ob. l \<in> label ` set (metadataEntries ob))
          (case obs of None \<Rightarrow> [] | Some os \<Rightarrow> os)"

section \<open>Example inputs\<close>

definition mkEntry :: "string \<Rightarrow> unit MetadataEntryFragment" where
  "mkEntry l = \<lparr>typename = ''TextMetadataEntry'', label = l, description = None, payload = ()\<rparr>"

definition exEvent :: "unit TableEvent" where
  "exEvent = \<lparr>metadataEntries = [mkEntry ''a'', mkEntry ''b''],
              timestamp = Some (TsString ''1700000002000''), runId = Some ''run-e''\<rparr>"

definition exObservation :: "unit TableEvent" where
  "exObservation = \<lparr>metadataEntries = [mkEntry ''b'', mkEntry ''c''],
                    timestamp = Some (TsString ''1700000001000''), runId = Some ''run-o''\<rparr>"

definition exDefinition :: "unit MetadataEntryFragment list" where
  "exDefinition = [mkEntry ''a'', mkEntry ''d'']"

definition exRows :: "unit row list" where
  "exRows = allRows (Some exEvent) (Some [exObservation]) (Some exDefinition) (Some 1700000000000)"

text \<open>
  An environment for the examples: lower-casing of the ASCII letters, one hidden label,
  and the two predicates testing the type name and the label of an entry.
\<close>

definition asciiToLowerCase :: "string \<Rightarrow> string" where
  "asciiToLowerCase s =
     map (\<lambda>c. case map_of (zip ''ABCDEFGHIJKLMNOPQRSTUVWXYZ'' ''abcdefghijklmnopqrstuvwxyz'') c of
                 None \<Rightarrow> c | Some d \<Rightarrow> d) s"

definition exEnv :: "unit env" where
  "exEnv =
     \<lparr>HIDDEN_METADATA_ENTRY_LABELS = {''dagster/code_references''},
      isCanonicalColumnSchemaEntry =
        (\<lambda>e. typename e = ''TableSchemaMetadataEntry'' \<and> label e = ''dagster/column_schema''),
      isCanonicalColumnLineageEntry =
        (\<lambda>e. typename e = ''TableColumnLineageMetadataEntry''
              \<and> label e = ''dagster/column_lineage''),
      toLowerCase = asciiToLowerCase\<rparr>"

definition exMixedDefinition :: "unit MetadataEntryFragment list" where
  "exMixedDefinition =
     [mkEntry ''dagster/code_references'',
      \<lparr>typename = ''TableSchemaMetadataEntry'', label = ''dagster/column_schema'',
       description = None, payload = ()\<rparr>,
      \<lparr>typename = ''TableColumnLineageMetadataEntry'', label = ''dagster/column_lineage'',
       description = None, payload = ()\<rparr>,
      mkEntry ''Row Count'',
      mkEntry ''owner'']"

definition exMixedRows :: "unit row list" where
  "exMixedRows = allRows None None (Some exMixedDefinition) None"

text \<open>
  Properties for the examples: no input at all; one definition entry whose label is
  hidden; 150 definition entries with pairwise different labels.
\<close>

definition exEmptyProps :: "string ReactNode \<Rightarrow> (unit, string) Props" where
  "exEmptyProps es =
     \<lparr>event = None, observations = None, definitionMetadata = None,
      definitionLoadTimestamp = None, assetHasDefinedPartitions = None, showFilter = None,
      hideTableSchema = None, displayedByDefault = None, emptyState = es\<rparr>"

definition exHiddenProps :: "(unit, string) Props" where
  "exHiddenProps =
     (exEmptyProps (RElement ''No metadata''))
       \<lparr>definitionMetadata := Some [mkEntry ''dagster/code_references'']\<rparr>"

definition exBigProps :: "(unit, string) Props" where
  "exBigProps =
     (exEmptyProps RUndefined)
       \<lparr>definitionMetadata := Some (map (\<lambda>n. mkEntry [char_of n]) [0..<150 :: nat]),
        displayedByDefault := Some 100\<rparr>"

text \<open>
  Two observations with the same entry \<open>x\<close>, the later one first, and properties that
  show two rows by default.
\<close>

definition exTwoObservations :: "unit TableEvent list" where
  "exTwoObservations =
     [\<lparr>metadataEntries = [mkEntry ''x''], timestamp = Some (TsString ''2000''),
       runId = Some ''run-new''\<rparr>,
      \<lparr>metadataEntries = [mkEntry ''x'', mkEntry ''y''], timestamp = Some (TsString ''1000''),
       runId = Some ''run-old''\<rparr>]"

definition exTwoRows :: "unit row list" where
  "exTwoRows = allRows (Some exEvent) (Some exTwoObservations) None None"

definition exPagedProps :: "(unit, string) Props" where
  "exPagedProps =
     (exEmptyProps RUndefined)
       \<lparr>definitionMetadata := Some exMixedDefinition, displayedByDefault := Some 2\<rparr>"

section \<open>Properties of \<open>uniqBy\<close>\<close>

lemma baseUniq_subseq: "subseq (baseUniq f seen xs) xs"
  by (induction xs arbitrary: seen) auto

lemma baseUniq_keys_unseen: "f ` set (baseUniq f seen xs) \<inter> set seen = {}"
proof (induction xs arbitrary: seen)
  case Nil
  show ?case by simp
next
  case (Cons x xs)
  from Cons [of seen] Cons [of "f x # seen"] show ?case by auto
qed

lemma baseUniq_distinct: "distinct (map f (baseUniq f seen xs))"
proof (induction xs arbitrary: seen)
  case Nil
  show ?case by simp
next
  case (Cons x xs)
  from baseUniq_keys_unseen [of f "f x # seen" xs]
  have "f x \<notin> f ` set (baseUniq f (f x # seen) xs)" by auto
  with Cons show ?case by simp
qed

lemma baseUniq_find:
  "find (\<lambda>x. f x = k) (baseUniq f seen xs) =
     (if k \<in> set seen then None else find (\<lambda>x. f x = k) xs)"
proof (induction xs arbitrary: seen)
  case Nil
  show ?case by simp
next
  case (Cons x xs)
  show ?case
  proof (cases "f x \<in> set seen")
    case True
    with Cons [of seen] show ?thesis by auto
  next
    case False
    with Cons [of "f x # seen"] show ?thesis by auto
  qed
qed

lemma baseUniq_positions:
  "baseUniq f seen xs =
     map (\<lambda>i. xs ! i)
       (filter (\<lambda>i. f (xs ! i) \<notin> set seen \<union> f ` set (take i xs)) [0..<length xs])"
proof (induction xs arbitrary: seen)
  case Nil
  show ?case by simp
next
  case (Cons x xs)
  have upt: "[0..<length (x # xs)] = 0 # map Suc [0..<length xs]"
    by (simp add: upt_conv_Cons map_Suc_upt del: upt_Suc)
  show ?case
  proof (cases "f x \<in> set seen")
    case True
    have "filter (\<lambda>i. f ((x # xs) ! i) \<notin> set seen \<union> f ` set (take i (x # xs)))
            (0 # map Suc [0..<length xs]) =
          map Suc (filter (\<lambda>i. f (xs ! i) \<notin> set seen \<union> f ` set (take i xs)) [0..<length xs])"
      using True by (auto simp: filter_map comp_def intro: filter_cong)
    with True Cons [of seen] show ?thesis
      unfolding upt by (simp add: comp_def)
  next
    case False
    have "filter (\<lambda>i. f ((x # xs) ! i) \<notin> set seen \<union> f ` set (take i (x # xs)))
            (0 # map Suc [0..<length xs]) =
          0 # map Suc (filter (\<lambda>i. f (xs ! i) \<notin> set (f x # seen) \<union> f ` set (take i xs))
                         [0..<length xs])"
      using False by (auto simp: filter_map comp_def intro: filter_cong)
    with False Cons [of "f x # seen"] show ?thesis
      unfolding upt by (simp add: comp_def)
  qed
qed

lemma uniqBy_keepFirstOccurrence: "uniqBy xs f = keepFirstOccurrence f xs"
  by (simp add: uniqBy_def keepFirstOccurrence_def baseUniq_positions)

lemma find_append_case:
  "find P (xs @ ys) = (case find P xs of Some x \<Rightarrow> Some x | None \<Rightarrow> find P ys)"
  by (induction xs) auto

lemma filter_key_distinct:
  "distinct (map f xs) \<Longrightarrow>
   filter (\<lambda>x. f x = k) xs = (case find (\<lambda>x. f x = k) xs of None \<Rightarrow> [] | Some r \<Rightarrow> [r])"
proof (induction xs)
  case Nil
  show ?case by simp
next
  case (Cons x xs)
  show ?case
  proof (cases "f x = k")
    case True
    with Cons.prems have "filter (\<lambda>y. f y = k) xs = []"
      by (force simp: filter_empty_conv image_iff)
    with True show ?thesis by simp
  next
    case False
    with Cons show ?thesis by simp
  qed
qed

lemma uniqBy_find: "find (\<lambda>x. f x = k) (uniqBy xs f) = find (\<lambda>x. f x = k) xs"
  by (simp add: uniqBy_def baseUniq_find)

lemma uniqBy_distinct: "distinct (map f (uniqBy xs f))"
  by (simp add: uniqBy_def baseUniq_distinct)

lemma uniqBy_subseq: "subseq (uniqBy xs f) xs"
  by (simp add: uniqBy_def baseUniq_subseq)

lemma rowLabelled_allRows: "rowLabelled l (allRows ev obs defs ts) = winner l ev obs defs ts"
  by (simp add: rowLabelled_def allRows_def uniqBy_find find_append_case winner_def
           split: option.splits)

section \<open>The merge\<close>

text \<open>
  Claim C1. For every event, observations and definition metadata, \<open>allRows\<close> is the
  concatenation of the observation rows, the event rows and the definition rows, with
  only the first row of each label kept, in the order of the concatenation. For every
  label the rows of the result that carry it are exactly one row, the one the priority
  ordering selects (an observation row before an event row, an event row before a
  definition row), or none when no input row carries the label.
\<close>

theorem allRows_merge_precedence:
  "allRows ev obs defs ts =
     keepFirstOccurrence (\<lambda>r. label (entry r))
       (observationRows obs @ eventRows ev @ definitionRows defs ts)
   \<and> filter (\<lambda>r. label (entry r) = l) (allRows ev obs defs ts) =
       (case winner l ev obs defs ts of None \<Rightarrow> [] | Some r \<Rightarrow> [r])"
proof -
  have "distinct (map (\<lambda>r. label (entry r)) (allRows ev obs defs ts))"
    by (simp add: allRows_def uniqBy_distinct)
  then have "filter (\<lambda>r. label (entry r) = l) (allRows ev obs defs ts) =
      (case rowLabelled l (allRows ev obs defs ts) of None \<Rightarrow> [] | Some r \<Rightarrow> [r])"
    unfolding rowLabelled_def by (rule filter_key_distinct)
  then have "filter (\<lambda>r. label (entry r) = l) (allRows ev obs defs ts) =
      (case winner l ev obs defs ts of None \<Rightarrow> [] | Some r \<Rightarrow> [r])"
    by (simp only: rowLabelled_allRows)
  moreover have "allRows ev obs defs ts =
     keepFirstOccurrence (\<lambda>r. label (entry r))
       (observationRows obs @ eventRows ev @ definitionRows defs ts)"
    by (simp only: allRows_def uniqBy_keepFirstOccurrence)
  ultimately show ?thesis by (rule_tac conjI)
qed

text \<open>
  The scenario of the specification: the event has \<open>a, b\<close>, one observation has \<open>b, c\<close>,
  the definition has \<open>a, d\<close>.
\<close>

theorem allRows_merge_precedence_witness:
  "map (\<lambda>r. (icon r, label (entry r)))
       (keepFirstOccurrence (\<lambda>r. label (entry r))
         (observationRows (Some [exObservation]) @ eventRows (Some exEvent)
            @ definitionRows (Some exDefinition) (Some 1700000000000))) =
     [(observation, ''b''), (observation, ''c''), (materialization, ''a''), (asset, ''d'')]
   \<and> map icon (filter (\<lambda>r. label (entry r) = ''b'') exRows) = [observation]
   \<and> map icon (filter (\<lambda>r. label (entry r) = ''a'') exRows) = [materialization]"
proof -
  note merged = allRows_merge_precedence [of "Some exEvent" "Some [exObservation]"
      "Some exDefinition" "Some 1700000000000" "''b''"]
  have rows: "map (\<lambda>r. (icon r, label (entry r))) exRows =
     [(observation, ''b''), (observation, ''c''), (materialization, ''a''), (asset, ''d'')]"
    by (simp add: exRows_def allRows_def uniqBy_def observationRows_def eventRows_def
        definitionRows_def exEvent_def exObservation_def exDefinition_def mkEntry_def)
  have b: "map icon (filter (\<lambda>r. label (entry r) = ''b'') exRows) = [observation]"
    by (simp add: exRows_def allRows_def uniqBy_def observationRows_def eventRows_def
        definitionRows_def exEvent_def exObservation_def exDefinition_def mkEntry_def)
  have a: "map icon (filter (\<lambda>r. label (entry r) = ''a'') exRows) = [materialization]"
    by (simp add: exRows_def allRows_def uniqBy_def observationRows_def eventRows_def
        definitionRows_def exEvent_def exObservation_def exDefinition_def mkEntry_def)
  from merged have "keepFirstOccurrence (\<lambda>r. label (entry r))
         (observationRows (Some [exObservation]) @ eventRows (Some exEvent)
            @ definitionRows (Some exDefinition) (Some 1700000000000)) = exRows"
    unfolding exRows_def by (rule_tac sym) (rule conjunct1)
  with rows a b show ?thesis by simp
qed

lemma entry_eventRows: "map entry (eventRows ev) = entriesOfEvent ev"
  by (simp add: eventRows_def entriesOfEvent_def comp_def split: option.splits)

lemma entry_observationRows: "map entry (observationRows obs) = entriesOfObservations obs"
  by (simp add: observationRows_def entriesOfObservations_def map_concat comp_def)

lemma entry_definitionRows: "map entry (definitionRows defs ts) = entriesOfDefinition defs"
  by (simp add: definitionRows_def entriesOfDefinition_def comp_def)

lemma icon_eventRows: "r \<in> set (eventRows ev) \<Longrightarrow> icon r = materialization"
  by (auto simp: eventRows_def split: option.splits)

lemma icon_observationRows: "r \<in> set (observationRows obs) \<Longrightarrow> icon r = observation"
  by (auto simp: observationRows_def)

lemma icon_definitionRows: "r \<in> set (definitionRows defs ts) \<Longrightarrow> icon r = asset"
  by (auto simp: definitionRows_def)

lemma filter_all: "(\<And>x. x \<in> set xs \<Longrightarrow> P x) \<Longrightarrow> filter P xs = xs"
  by (induction xs) auto

lemma filter_none: "(\<And>x. x \<in> set xs \<Longrightarrow> \<not> P x) \<Longrightarrow> filter P xs = []"
  by (induction xs) auto

lemma tierOf_concatenation:
  "map entry (tierOf t (observationRows obs @ eventRows ev @ definitionRows defs ts)) =
     tierInput t ev obs defs"
proof (cases t)
  case materialization
  have "tierOf t (observationRows obs) = []" "tierOf t (eventRows ev) = eventRows ev"
       "tierOf t (definitionRows defs ts) = []"
    unfolding tierOf_def materialization
    by (auto intro!: filter_all filter_none
             dest: icon_eventRows icon_observationRows icon_definitionRows)
  then show ?thesis
    by (simp add: tierOf_def tierInput_def materialization entry_eventRows)
next
  case observation
  have "tierOf t (observationRows obs) = observationRows obs" "tierOf t (eventRows ev) = []"
       "tierOf t (definitionRows defs ts) = []"
    unfolding tierOf_def observation
    by (auto intro!: filter_all filter_none
             dest: icon_eventRows icon_observationRows icon_definitionRows)
  then show ?thesis
    by (simp add: tierOf_def tierInput_def observation entry_observationRows)
next
  case asset
  have "tierOf t (observationRows obs) = []" "tierOf t (eventRows ev) = []"
       "tierOf t (definitionRows defs ts) = definitionRows defs ts"
    unfolding tierOf_def asset
    by (auto intro!: filter_all filter_none
             dest: icon_eventRows icon_observationRows icon_definitionRows)
  then show ?thesis
    by (simp add: tierOf_def tierInput_def asset entry_definitionRows)
qed

lemma length_concatenation:
  "length (observationRows obs @ eventRows ev @ definitionRows defs ts) =
     inputRowCount ev obs defs"
proof -
  have "length (map entry (observationRows obs @ eventRows ev @ definitionRows defs ts)) =
     inputRowCount ev obs defs"
    unfolding map_append entry_eventRows entry_observationRows entry_definitionRows
    by (simp add: inputRowCount_def)
  then show ?thesis by simp
qed

lemmas ex_defs = exRows_def allRows_def uniqBy_def observationRows_def eventRows_def
  definitionRows_def exEvent_def exObservation_def exDefinition_def mkEntry_def

text \<open>
  Claim C2. For all inputs, an absent event, absent observations and absent definition
  metadata counting as empty sequences: the merge result is no longer than the total
  number of input rows, its labels are pairwise distinct, and the entries of the rows of
  each provenance tier appear in the order the input of that tier has them. An absent
  input gives the result the empty input gives; with all three absent the result is
  empty.
\<close>

theorem allRows_invariants:
  "length (allRows ev obs defs ts) \<le> inputRowCount ev obs defs
   \<and> distinct (map (\<lambda>r. label (entry r)) (allRows ev obs defs ts))
   \<and> subseq (map entry (tierOf t (allRows ev obs defs ts))) (tierInput t ev obs defs)
   \<and> allRows None obs defs ts =
       allRows (Some \<lparr>metadataEntries = [], timestamp = tm, runId = rid\<rparr>) obs defs ts
   \<and> allRows ev None defs ts = allRows ev (Some []) defs ts
   \<and> allRows ev obs None ts = allRows ev obs (Some []) ts
   \<and> allRows None None None ts' = ([] :: 'v row list)
   \<and> inputRowCount None None (None :: 'v MetadataEntryFragment list option) = 0"
proof -
  let ?cat = "observationRows obs @ eventRows ev @ definitionRows defs ts"
  have sub: "subseq (allRows ev obs defs ts) ?cat"
    by (simp add: allRows_def uniqBy_subseq)
  then have "length (allRows ev obs defs ts) \<le> length ?cat"
    by (rule list_emb_length)
  then have len: "length (allRows ev obs defs ts) \<le> inputRowCount ev obs defs"
    by (simp only: length_concatenation)
  have dist: "distinct (map (\<lambda>r. label (entry r)) (allRows ev obs defs ts))"
    by (simp add: allRows_def uniqBy_distinct)
  from sub have "subseq (tierOf t (allRows ev obs defs ts)) (tierOf t ?cat)"
    unfolding tierOf_def by (rule subseq_filter)
  then have "subseq (map entry (tierOf t (allRows ev obs defs ts))) (map entry (tierOf t ?cat))"
    by (rule subseq_map)
  then have tier: "subseq (map entry (tierOf t (allRows ev obs defs ts))) (tierInput t ev obs defs)"
    by (simp only: tierOf_concatenation)
  have none: "allRows None None None ts' = ([] :: 'v row list)"
    by (simp add: allRows_def uniqBy_def observationRows_def eventRows_def definitionRows_def)
  have zero: "inputRowCount None None (None :: 'v MetadataEntryFragment list option) = 0"
    by (simp add: inputRowCount_def entriesOfObservations_def entriesOfEvent_def
          entriesOfDefinition_def)
  have absent:
    "allRows None obs defs ts =
       allRows (Some \<lparr>metadataEntries = [], timestamp = tm, runId = rid\<rparr>) obs defs ts"
    "allRows ev None defs ts = allRows ev (Some []) defs ts"
    "allRows ev obs None ts = allRows ev obs (Some []) ts"
    by (simp_all add: allRows_def observationRows_def eventRows_def definitionRows_def)
  from len dist tier absent none zero show ?thesis by blast
qed


theorem allRows_invariants_witness:
  "length exRows = 4
   \<and> inputRowCount (Some exEvent) (Some [exObservation]) (Some exDefinition) = 6
   \<and> distinct (map (\<lambda>r. label (entry r)) exRows)
   \<and> map label (map entry (tierOf materialization exRows)) = [''a'']
   \<and> map label (tierInput materialization (Some exEvent) (Some [exObservation])
         (Some exDefinition)) = [''a'', ''b'']
   \<and> subseq (map entry (tierOf materialization exRows))
        (tierInput materialization (Some exEvent) (Some [exObservation]) (Some exDefinition))"
proof -
  note inv = allRows_invariants [of "Some exEvent" "Some [exObservation]" "Some exDefinition"
      "Some 1700000000000" materialization None None None, folded exRows_def]
  have "length exRows = 4"
    by (simp add: ex_defs)
  moreover have "inputRowCount (Some exEvent) (Some [exObservation]) (Some exDefinition) = 6"
    by (simp add: inputRowCount_def entriesOfObservations_def entriesOfEvent_def
          entriesOfDefinition_def exEvent_def exObservation_def exDefinition_def)
  moreover have "map label (map entry (tierOf materialization exRows)) = [''a'']"
    by (simp add: tierOf_def ex_defs)
  moreover have "map label (tierInput materialization (Some exEvent) (Some [exObservation])
         (Some exDefinition)) = [''a'', ''b'']"
    by (simp add: tierInput_def entriesOfEvent_def exEvent_def mkEntry_def)
  moreover from inv have "distinct (map (\<lambda>r. label (entry r)) exRows)"
    by (rule_tac conjunct1) (rule conjunct2)
  moreover from inv have "subseq (map entry (tierOf materialization exRows))
        (tierInput materialization (Some exEvent) (Some [exObservation]) (Some exDefinition))"
    by blast
  ultimately show ?thesis by simp
qed

lemma set_baseUniq: "set (baseUniq f seen xs) \<subseteq> set xs"
  by (induction xs arbitrary: seen) auto

lemma set_allRows:
  "set (allRows ev obs defs ts) \<subseteq>
     set (observationRows obs) \<union> set (eventRows ev) \<union> set (definitionRows defs ts)"
  using set_baseUniq [of "\<lambda>e. label (entry e)" "[]"
      "observationRows obs @ eventRows ev @ definitionRows defs ts"]
  by (simp add: allRows_def uniqBy_def Un_assoc)

lemma find_map_option: "find P (map g xs) = map_option g (find (\<lambda>x. P (g x)) xs)"
  by (induction xs) auto

lemma find_concat_map:
  "find P (concat (map f xs)) =
     (case find (\<lambda>x. \<exists>y \<in> set (f x). P y) xs of None \<Rightarrow> None | Some x \<Rightarrow> find P (f x))"
proof (induction xs)
  case Nil
  show ?case by simp
next
  case (Cons x xs)
  show ?case
  proof (cases "\<exists>y \<in> set (f x). P y")
    case True
    then have "find P (f x) \<noteq> None"
      by (auto simp: find_None_iff)
    with True show ?thesis
      by (auto simp: find_append_case split: option.splits)
  next
    case False
    then have "find P (f x) = None"
      by (auto simp: find_None_iff)
    with False Cons show ?thesis
      by (simp add: find_append_case)
  qed
qed

lemma rowLabelled_observationRows:
  "rowLabelled l (observationRows obs) =
     (case sourceObservation l obs of
        None \<Rightarrow> None
      | Some ob \<Rightarrow> map_option (observationRow ob) (find (\<lambda>e. label e = l) (metadataEntries ob)))"
proof -
  have same: "(\<lambda>ob. \<exists>y \<in> set (map (observationRow ob) (metadataEntries ob)). label (entry y) = l)
      = (\<lambda>ob. l \<in> label ` set (metadataEntries ob))" for l :: string
    by (auto simp: observationRow_def fun_eq_iff)
  have rows: "observationRows obs =
      concat (map (\<lambda>ob. map (observationRow ob) (metadataEntries ob))
                (case obs of None \<Rightarrow> [] | Some os \<Rightarrow> os))"
    by (simp add: observationRows_def observationRow_def [abs_def])
  show ?thesis
    unfolding rowLabelled_def rows sourceObservation_def find_concat_map same
    by (simp add: find_map_option observationRow_def split: option.splits)
qed

lemma find_distinct_member:
  "distinct (map f xs) \<Longrightarrow> x \<in> set xs \<Longrightarrow> find (\<lambda>y. f y = f x) xs = Some x"
  by (induction xs) (auto simp: image_iff)

lemma rowLabelled_member:
  "r \<in> set (allRows ev obs defs ts) \<Longrightarrow>
   rowLabelled (label (entry r)) (allRows ev obs defs ts) = Some r"
  unfolding rowLabelled_def
  by (rule find_distinct_member [where f = "\<lambda>r. label (entry r)"])
     (simp_all add: allRows_def uniqBy_distinct)

lemma find_Some_member: "find P xs = Some x \<Longrightarrow> x \<in> set xs"
  by (induction xs) (auto split: if_splits)

lemma rowLabelled_icon:
  "rowLabelled l (eventRows ev) = Some r \<Longrightarrow> icon r = materialization"
  "rowLabelled l (definitionRows defs ts) = Some r \<Longrightarrow> icon r = asset"
  "rowLabelled l (observationRows obs) = Some r \<Longrightarrow> icon r = observation"
  unfolding rowLabelled_def
  by (auto dest!: find_Some_member intro: icon_eventRows icon_definitionRows
        icon_observationRows)

lemma eventRows_exact:
  "r \<in> set (eventRows ev) \<Longrightarrow>
   \<exists>e \<in> set (entriesOfEvent ev).
     r = \<lparr>icon = materialization,
          timestamp = (case ev of None \<Rightarrow> None | Some ev' \<Rightarrow> TableEvent.timestamp ev'),
          runId = JsNull, entry = e\<rparr>"
  by (auto simp: eventRows_def entriesOfEvent_def split: option.splits)

lemma definitionRows_exact:
  "r \<in> set (definitionRows defs ts) \<Longrightarrow>
   \<exists>e \<in> set (entriesOfDefinition defs).
     r = \<lparr>icon = asset, timestamp = map_option TsNumber ts, runId = JsNull, entry = e\<rparr>"
  by (auto simp: definitionRows_def entriesOfDefinition_def)

text \<open>
  Claim C10. Every merged row that comes from the current event or from the definition
  metadata is the row built for one of their entries, with the run identifier \<open>null\<close>:
  the \<open>runId\<close> of the event is never copied to a row. Only a row that comes from an
  observation carries a run identifier: it is the first observation row with its label,
  built from the source observation of that label, with the \<open>runId\<close> and the timestamp
  of that observation.
\<close>

theorem allRows_row_provenance:
  "r \<in> set (allRows ev obs defs ts) \<Longrightarrow>
     (case icon r of
        observation \<Rightarrow>
          rowLabelled (label (entry r)) (observationRows obs) = Some r
          \<and> (\<exists>ob e. sourceObservation (label (entry r)) obs = Some ob
                \<and> find (\<lambda>e. label e = label (entry r)) (metadataEntries ob) = Some e
                \<and> r = \<lparr>icon = observation, timestamp = TableEvent.timestamp ob,
                        runId = JsValue (TableEvent.runId ob), entry = e\<rparr>)
      | materialization \<Rightarrow>
          (\<exists>e \<in> set (entriesOfEvent ev).
              r = \<lparr>icon = materialization,
                   timestamp = (case ev of None \<Rightarrow> None | Some ev' \<Rightarrow> TableEvent.timestamp ev'),
                   runId = JsNull, entry = e\<rparr>)
      | asset \<Rightarrow>
          (\<exists>e \<in> set (entriesOfDefinition defs).
              r = \<lparr>icon = asset, timestamp = map_option TsNumber ts, runId = JsNull,
                   entry = e\<rparr>))"
proof -
  assume mem: "r \<in> set (allRows ev obs defs ts)"
  with set_allRows [of ev obs defs ts]
  consider (o) "r \<in> set (observationRows obs)" | (e) "r \<in> set (eventRows ev)"
    | (d) "r \<in> set (definitionRows defs ts)"
    by auto
  then show ?thesis
  proof cases
    case o
    then have ic: "icon r = observation"
      by (rule icon_observationRows)
    from mem have "winner (label (entry r)) ev obs defs ts = Some r"
      by (simp add: rowLabelled_member rowLabelled_allRows [symmetric])
    with ic have first: "rowLabelled (label (entry r)) (observationRows obs) = Some r"
      by (auto simp: winner_def split: option.splits dest: rowLabelled_icon)
    then have "\<exists>ob e. sourceObservation (label (entry r)) obs = Some ob
                \<and> find (\<lambda>e. label e = label (entry r)) (metadataEntries ob) = Some e
                \<and> r = observationRow ob e"
      by (auto simp: rowLabelled_observationRows split: option.splits)
    with ic first show ?thesis
      by (simp add: observationRow_def)
  next
    case e
    from icon_eventRows [OF e] eventRows_exact [OF e] show ?thesis by simp
  next
    case d
    from icon_definitionRows [OF d] definitionRows_exact [OF d] show ?thesis by simp
  qed
qed



text \<open>
  Two observations hold the entry \<open>x\<close>: the row has the run and the timestamp of the
  first. The event of the example carries \<open>runId = run-e\<close>; its row \<open>a\<close> has \<open>null\<close>.
\<close>

theorem allRows_row_provenance_witness:
  "exTwoRows ! 0 \<in> set exTwoRows
   \<and> sourceObservation ''x'' (Some exTwoObservations) = Some (exTwoObservations ! 0)
   \<and> exTwoRows ! 0 =
       \<lparr>icon = observation, timestamp = Some (TsString ''2000''),
        runId = JsValue (Some ''run-new''), entry = mkEntry ''x''\<rparr>
   \<and> exRows ! 2 \<in> set exRows
   \<and> TableEvent.runId exEvent = Some ''run-e''
   \<and> exRows ! 2 =
       \<lparr>icon = materialization, timestamp = Some (TsString ''1700000002000''),
        runId = JsNull, entry = mkEntry ''a''\<rparr>"
proof -
  note two_defs = exTwoRows_def exTwoObservations_def allRows_def uniqBy_def
    observationRows_def eventRows_def definitionRows_def exEvent_def mkEntry_def
  have mem0: "exTwoRows ! 0 \<in> set exTwoRows"
    by (simp add: two_defs)
  have ic0: "icon (exTwoRows ! 0) = observation"
    and l0: "label (entry (exTwoRows ! 0)) = ''x''"
    by (simp_all add: two_defs)
  have src: "sourceObservation ''x'' (Some exTwoObservations) = Some (exTwoObservations ! 0)"
    by (simp add: sourceObservation_def exTwoObservations_def mkEntry_def)
  have ob0: "exTwoObservations ! 0 =
      \<lparr>metadataEntries = [mkEntry ''x''], timestamp = Some (TsString ''2000''),
       runId = Some ''run-new''\<rparr>"
    by (simp add: exTwoObservations_def)
  from allRows_row_provenance [of "exTwoRows ! 0" "Some exEvent" "Some exTwoObservations"
      None None, folded exTwoRows_def, OF mem0]
  have row0: "exTwoRows ! 0 =
       \<lparr>icon = observation, timestamp = Some (TsString ''2000''),
        runId = JsValue (Some ''run-new''), entry = mkEntry ''x''\<rparr>"
    unfolding ic0 l0 src ob0 by (auto simp: mkEntry_def)
  have mem2: "exRows ! 2 \<in> set exRows"
    by (simp add: ex_defs)
  have ic2: "icon (exRows ! 2) = materialization"
    and l2: "label (entry (exRows ! 2)) = ''a''"
    by (simp_all add: ex_defs)
  have ev: "entriesOfEvent (Some exEvent) = [mkEntry ''a'', mkEntry ''b'']"
    "TableEvent.timestamp exEvent = Some (TsString ''1700000002000'')"
    "TableEvent.runId exEvent = Some ''run-e''"
    by (simp_all add: entriesOfEvent_def exEvent_def)
  from allRows_row_provenance [of "exRows ! 2" "Some exEvent" "Some [exObservation]"
      "Some exDefinition" "Some 1700000000000", folded exRows_def, OF mem2] l2
  have row2: "exRows ! 2 =
       \<lparr>icon = materialization, timestamp = Some (TsString ''1700000002000''),
        runId = JsNull, entry = mkEntry ''a''\<rparr>"
    unfolding ic2 ev(1) by (auto simp: mkEntry_def ev(2))
  from mem0 src row0 mem2 ev(3) row2 show ?thesis by simp
qed

section \<open>The filter\<close>

lemma includes_str_sublist: "includes_str s t = sublist t s"
  by (induction s) (simp_all add: sublist_Cons_right)

lemma includes_str_iff: "includes_str s t \<longleftrightarrow> (\<exists>before after. s = before @ t @ after)"
  by (simp add: includes_str_sublist sublist_def)

lemma labelMatches_iff:
  "flt \<noteq> [] \<Longrightarrow>
   labelMatches env flt r = containsIgnoringCase env (label (entry r)) flt"
  by (simp add: labelMatches_def truthy_string_def containsIgnoringCase_def includes_str_iff)

lemma labelMatches_empty: "labelMatches env [] r"
  by (simp add: labelMatches_def truthy_string_def)

lemmas ex_filter_defs = filteredRows_def labelMatches_def notExcluded_def truthy_string_def
  truthy_flag_def exEnv_def asciiToLowerCase_def exMixedRows_def exMixedDefinition_def
  allRows_def uniqBy_def observationRows_def eventRows_def definitionRows_def mkEntry_def

lemma filteredRows_subseq: "subseq (filteredRows env rows flt hide) rows"
proof -
  have "subseq (filteredRows env rows flt hide) (filter (labelMatches env flt) rows)"
    unfolding filteredRows_def by (rule subseq_filter_left)
  also have "subseq (filter (labelMatches env flt) rows) rows"
    by (rule subseq_filter_left)
  finally show ?thesis .
qed

lemma filteredRows_member:
  "r \<in> set (filteredRows env rows flt hide) \<longleftrightarrow>
     r \<in> set rows \<and> labelMatches env flt r \<and> notExcluded env hide r"
  by (auto simp: filteredRows_def)

text \<open>
  Claim C3, as the code has it. With the empty filter text no row is removed by the
  substring match, whatever the lower-casing does, and \<open>filteredRows\<close> is the exclusion
  step alone. Every other filter text, one made of white space included, is matched:
  the step keeps exactly the rows whose lower-cased label contains the lower-cased text.
\<close>

theorem empty_filter_is_no_filter:
  "filter (labelMatches env []) rows = rows
   \<and> filteredRows env rows [] hide = filter (notExcluded env hide) rows
   \<and> (flt \<noteq> [] \<longrightarrow>
        filter (labelMatches env flt) rows =
        filter (\<lambda>r. containsIgnoringCase env (label (entry r)) flt) rows)"
proof -
  have "filter (labelMatches env []) rows = rows"
    by (simp add: labelMatches_empty)
  moreover from this have "filteredRows env rows [] hide = filter (notExcluded env hide) rows"
    by (simp add: filteredRows_def)
  moreover have "flt \<noteq> [] \<longrightarrow>
        filter (labelMatches env flt) rows =
        filter (\<lambda>r. containsIgnoringCase env (label (entry r)) flt) rows"
    by (simp add: labelMatches_iff cong: filter_cong)
  ultimately show ?thesis by simp
qed

theorem empty_filter_is_no_filter_witness:
  "'' '' \<noteq> []
   \<and> map (\<lambda>r. label (entry r)) (filter (labelMatches exEnv []) exMixedRows) =
       [''dagster/code_references'', ''dagster/column_schema'', ''dagster/column_lineage'',
        ''Row Count'', ''owner'']
   \<and> map (\<lambda>r. label (entry r))
         (filter (\<lambda>r. containsIgnoringCase exEnv (label (entry r)) '' '') exMixedRows) =
       [''Row Count'']"
proof -
  note nofilter = empty_filter_is_no_filter [of exEnv exMixedRows None "'' ''"]
  have ne: "'' '' \<noteq> []" by simp
  have all: "map (\<lambda>r. label (entry r)) exMixedRows =
       [''dagster/code_references'', ''dagster/column_schema'', ''dagster/column_lineage'',
        ''Row Count'', ''owner'']"
    by (simp add: ex_filter_defs)
  have sp: "map (\<lambda>r. label (entry r)) (filter (labelMatches exEnv '' '') exMixedRows) =
       [''Row Count'']"
    by (simp add: ex_filter_defs)
  from nofilter ne have "filter (\<lambda>r. containsIgnoringCase exEnv (label (entry r)) '' '') exMixedRows
      = filter (labelMatches exEnv '' '') exMixedRows"
    by simp
  moreover from nofilter have "filter (labelMatches exEnv []) exMixedRows = exMixedRows"
    by (rule conjunct1)
  ultimately show ?thesis using all sp by simp
qed

text \<open>
  Claim C3 as written also takes a filter text of white space for "no filter". The
  filter text of one space is truthy, and no label of the example contains a space: the
  substring match removes all four rows.
\<close>

theorem whitespace_filter_counterexample:
  "whitespaceOnly '' '' \<and> filter (labelMatches exEnv '' '') exRows = [] \<and> exRows \<noteq> []"
  by (simp add: whitespaceOnly_def labelMatches_def truthy_string_def exEnv_def
        asciiToLowerCase_def ex_defs)


text \<open>
  Claim C4. For every row sequence and every filter text, the output of \<open>filteredRows\<close>
  is a subsequence of its input (no new row, no reordering), and the label of every row
  it retains contains the filter text when both are lower-cased. The lower-casing is
  assumed to map the empty string to the empty string, as \<open>toLowerCase\<close> does.
\<close>

theorem filteredRows_subsequence_matching:
  assumes "toLowerCase env [] = []"
  shows "subseq (filteredRows env rows flt hide) rows
         \<and> (\<forall>r \<in> set (filteredRows env rows flt hide).
               containsIgnoringCase env (label (entry r)) flt)"
proof -
  have "containsIgnoringCase env (label (entry r)) flt"
    if "r \<in> set (filteredRows env rows flt hide)" for r
  proof (cases "flt = []")
    case True
    with assms have "toLowerCase env (label (entry r)) =
        [] @ toLowerCase env flt @ toLowerCase env (label (entry r))"
      by simp
    then show ?thesis
      unfolding containsIgnoringCase_def by blast
  next
    case False
    from that have "labelMatches env flt r"
      by (simp add: filteredRows_member)
    with False show ?thesis
      by (simp add: labelMatches_iff)
  qed
  with filteredRows_subseq [of env rows flt hide] show ?thesis by blast
qed

theorem filteredRows_subsequence_matching_witness:
  "toLowerCase exEnv [] = []
   \<and> map (\<lambda>r. label (entry r)) (filteredRows exEnv exMixedRows ''ROW'' None) = [''Row Count'']
   \<and> subseq (filteredRows exEnv exMixedRows ''ROW'' None) exMixedRows
   \<and> containsIgnoringCase exEnv ''Row Count'' ''ROW''"
proof -
  have low: "toLowerCase exEnv [] = []"
    by (simp add: exEnv_def asciiToLowerCase_def)
  have kept: "filteredRows exEnv exMixedRows ''ROW'' None =
      [\<lparr>icon = asset, timestamp = None, runId = JsNull, entry = mkEntry ''Row Count''\<rparr>]"
    by (simp add: ex_filter_defs)
  note sub = filteredRows_subsequence_matching [OF low, of exMixedRows "''ROW''" None]
  from sub have "subseq (filteredRows exEnv exMixedRows ''ROW'' None) exMixedRows"
    by (rule conjunct1)
  moreover from sub have "containsIgnoringCase exEnv ''Row Count'' ''ROW''"
    unfolding kept by (simp add: mkEntry_def)
  ultimately show ?thesis using low kept by (simp add: mkEntry_def)
qed

text \<open>
  Claim C5. For every row sequence and every filter text, the output of \<open>filteredRows\<close>
  holds no row whose label is in the hidden-label set, no row whose entry is a canonical
  column-lineage entry, and, when \<open>hideTableSchema\<close> is set, no row whose entry is a
  canonical column-schema entry.
\<close>

theorem filteredRows_exclusions:
  "\<forall>r \<in> set (filteredRows env rows flt hide).
      label (entry r) \<notin> HIDDEN_METADATA_ENTRY_LABELS env
      \<and> \<not> isCanonicalColumnLineageEntry env (entry r)
      \<and> (hide = Some True \<longrightarrow> \<not> isCanonicalColumnSchemaEntry env (entry r))"
  by (simp add: filteredRows_member notExcluded_def truthy_flag_def)

theorem filteredRows_exclusions_witness:
  "map (\<lambda>r. label (entry r)) (filteredRows exEnv exMixedRows [] (Some True)) =
     [''Row Count'', ''owner'']
   \<and> map (\<lambda>r. label (entry r)) (filteredRows exEnv exMixedRows [] None) =
     [''dagster/column_schema'', ''Row Count'', ''owner'']
   \<and> ''owner'' \<notin> HIDDEN_METADATA_ENTRY_LABELS exEnv
   \<and> \<not> isCanonicalColumnLineageEntry exEnv (mkEntry ''owner'')
   \<and> \<not> isCanonicalColumnSchemaEntry exEnv (mkEntry ''owner'')"
proof -
  have kept: "filteredRows exEnv exMixedRows [] (Some True) =
      [\<lparr>icon = asset, timestamp = None, runId = JsNull, entry = mkEntry ''Row Count''\<rparr>,
       \<lparr>icon = asset, timestamp = None, runId = JsNull, entry = mkEntry ''owner''\<rparr>]"
    by (simp add: ex_filter_defs)
  have shown: "map (\<lambda>r. label (entry r)) (filteredRows exEnv exMixedRows [] None) =
     [''dagster/column_schema'', ''Row Count'', ''owner'']"
    by (simp add: ex_filter_defs)
  from filteredRows_exclusions [of exEnv exMixedRows "[]" "Some True"]
  have "label (mkEntry ''owner'') \<notin> HIDDEN_METADATA_ENTRY_LABELS exEnv
     \<and> \<not> isCanonicalColumnLineageEntry exEnv (mkEntry ''owner'')
     \<and> \<not> isCanonicalColumnSchemaEntry exEnv (mkEntry ''owner'')"
    unfolding kept by simp
  then show ?thesis using kept shown by (simp add: mkEntry_def)
qed

text \<open>
  Claim C9. Filtering twice with the same filter text and the same flag gives what
  filtering once gives.
\<close>

theorem filteredRows_idempotent:
  "filteredRows env (filteredRows env rows flt hide) flt hide = filteredRows env rows flt hide"
proof -
  let ?once = "filteredRows env rows flt hide"
  have "filter (labelMatches env flt) ?once = ?once"
    by (rule filter_all) (simp add: filteredRows_member)
  moreover have "filter (notExcluded env hide) ?once = ?once"
    by (rule filter_all) (simp add: filteredRows_member)
  ultimately show ?thesis
    by (simp add: filteredRows_def [of env ?once])
qed

theorem filteredRows_idempotent_witness:
  "map (\<lambda>r. label (entry r)) (filteredRows exEnv exMixedRows ''o'' (Some True)) =
     [''Row Count'', ''owner'']
   \<and> filteredRows exEnv (filteredRows exEnv exMixedRows ''o'' (Some True)) ''o'' (Some True) =
       filteredRows exEnv exMixedRows ''o'' (Some True)"
proof -
  have "map (\<lambda>r. label (entry r)) (filteredRows exEnv exMixedRows ''o'' (Some True)) =
     [''Row Count'', ''owner'']"
    by (simp add: ex_filter_defs)
  with filteredRows_idempotent [of exEnv exMixedRows "''o''" "Some True"]
  show ?thesis by simp
qed

section \<open>Pagination, empty state and the displayed count\<close>

lemma slice_from_0: "0 \<le> n \<Longrightarrow> slice rows 0 n = take (nat n) rows"
  by (simp add: slice_def Let_def min_def)

lemma tbody_empty: "tbody [] n = [NoMetadataEntries]"
  by (simp add: tbody_def slice_def)

lemma step_displayedCount:
  "displayedCount s \<in> {displayedByDefaultOf p, MAX_SAFE_INTEGER} \<Longrightarrow>
   displayedCount (step env p s a) \<in> {displayedByDefaultOf p, MAX_SAFE_INTEGER}"
  by (cases a) (auto simp: step_def)

lemma foldl_step_displayedCount:
  "displayedCount s \<in> {displayedByDefaultOf p, MAX_SAFE_INTEGER} \<Longrightarrow>
   displayedCount (foldl (step env p) s as) \<in> {displayedByDefaultOf p, MAX_SAFE_INTEGER}"
proof (induction as arbitrary: s)
  case Nil
  then show ?case by simp
next
  case (Cons a as)
  from Cons.prems have "displayedCount (step env p s a) \<in> {displayedByDefaultOf p, MAX_SAFE_INTEGER}"
    by (rule step_displayedCount)
  then show ?case
    unfolding foldl_Cons by (rule Cons.IH)
qed

lemma filteredRowsOf_displayedCount:
  "filteredRowsOf env p (s\<lparr>displayedCount := n\<rparr>) = filteredRowsOf env p s"
  by (simp add: filteredRowsOf_def)

lemma button_table:
  "allRowsOf p \<noteq> [] \<Longrightarrow> view s = Table \<Longrightarrow>
   offered (render env p s) ClickShowMore =
     (displayedCount s < int (length (filteredRowsOf env p s)))
   \<and> offered (render env p s) ClickShowLess =
     (\<not> displayedCount s < int (length (filteredRowsOf env p s))
      \<and> displayedCount s > displayedByDefaultOf p)"
  by (simp add: render_def footer_def)

lemma filteredRowsOf_nonempty: "filteredRowsOf env p s \<noteq> [] \<Longrightarrow> allRowsOf p \<noteq> []"
  by (auto simp: filteredRowsOf_def filteredRows_def)

lemma exBig_len: "length (filteredRowsOf exEnv exBigProps (initialState exBigProps)) = 150"
  by code_simp


lemma rowsOfBody_map: "rowsOfBody (map MetadataRow rs) = rs"
  by (induction rs) auto

lemma rowsOfBody_tbody: "rowsOfBody (tbody rows n) = slice rows 0 n"
  by (simp add: tbody_def rowsOfBody_map)

lemma paginated_table:
  "view s = Table \<Longrightarrow> \<not> (truthy_node (emptyState p) \<and> allRowsOf p = []) \<Longrightarrow>
   paginated (render env p s) =
     Some (slice (filteredRowsOf env p s) 0 (displayedCount s),
           remainder (footer (displayedByDefaultOf p) (displayedCount s) (filteredRowsOf env p s)))"
  by (auto simp: render_def rowsOfBody_tbody)

lemma slice_prefix: "0 \<le> n \<Longrightarrow> slice xs 0 n = take (nat (min n (int (length xs)))) xs"
  by (simp add: slice_from_0 min_def)

lemma remainder_footer: "remainder (footer d n xs) = max 0 (int (length xs) - n)"
  by (simp add: footer_def)

lemma show_all:
  "int (length xs) \<le> MAX_SAFE_INTEGER \<Longrightarrow>
   slice xs 0 MAX_SAFE_INTEGER = xs \<and> remainder (footer d MAX_SAFE_INTEGER xs) = 0"
  by (simp add: slice_from_0 footer_def MAX_SAFE_INTEGER_def)

lemma length_rowsOfBody: "length (filter isMetadataRow b) = length (rowsOfBody b)"
  by (induction b rule: rowsOfBody.induct) auto

lemma prefixAndRemainder_paginated:
  "prefixAndRemainder r = map_option (\<lambda>(rs, k). (length rs, k)) (paginated r)"
  by (cases r rule: paginated.cases) (simp_all add: length_rowsOfBody)

lemma step_displayedCount_cases:
  "displayedCount (step env p s a) \<in> {displayedCount s, MAX_SAFE_INTEGER, displayedByDefaultOf p}"
  by (cases a) (auto simp: step_def)

lemma foldl_step_changing_props:
  "displayedCount s \<in> insert MAX_SAFE_INTEGER (displayedByDefaultOf ` S) \<Longrightarrow>
   fst ` set pas \<subseteq> S \<Longrightarrow>
   displayedCount (foldl (\<lambda>s (p, a). step env p s a) s pas)
     \<in> insert MAX_SAFE_INTEGER (displayedByDefaultOf ` S)"
proof (induction pas arbitrary: s)
  case Nil
  then show ?case by simp
next
  case (Cons pa pas)
  obtain p a where pa: "pa = (p, a)" by (cases pa)
  with Cons.prems have "p \<in> S" by simp
  with Cons.prems(1) step_displayedCount_cases [of env p s a]
  have "displayedCount (step env p s a) \<in> insert MAX_SAFE_INTEGER (displayedByDefaultOf ` S)"
    by auto
  moreover from Cons.prems have "fst ` set pas \<subseteq> S" by simp
  ultimately show ?case
    unfolding pa foldl_Cons prod.case by (rule Cons.IH)
qed

lemma show_more_less_scenario:
  assumes d: "displayedByDefaultOf p = d"
    and d0: "0 \<le> d"
    and less: "d < int (length (filteredRowsOf env p (initialState p)))"
    and small: "int (length (filteredRowsOf env p (initialState p))) \<le> MAX_SAFE_INTEGER"
  shows "paginated (render env p (run env p [])) =
           Some (take (nat d) (filteredRowsOf env p (initialState p)),
                 int (length (filteredRowsOf env p (initialState p))) - d)
         \<and> displayedCount (run env p [ClickShowMore]) = MAX_SAFE_INTEGER
         \<and> paginated (render env p (run env p [ClickShowMore])) =
             Some (filteredRowsOf env p (initialState p), 0)
         \<and> displayedCount (run env p [ClickShowMore, ClickShowLess]) = d
         \<and> paginated (render env p (run env p [ClickShowMore, ClickShowLess])) =
             Some (take (nat d) (filteredRowsOf env p (initialState p)),
                   int (length (filteredRowsOf env p (initialState p))) - d)"
proof -
  define s0 where "s0 = initialState p"
  define s1 where "s1 = s0\<lparr>displayedCount := MAX_SAFE_INTEGER\<rparr>"
  define s2 where "s2 = s1\<lparr>displayedCount := d\<rparr>"
  define rows where "rows = filteredRowsOf env p s0"
  from less d0 have "rows \<noteq> []"
    by (auto simp: rows_def s0_def)
  then have all: "allRowsOf p \<noteq> []"
    unfolding rows_def by (rule filteredRowsOf_nonempty)
  then have shown: "\<not> (truthy_node (emptyState p) \<and> allRowsOf p = [])"
    by simp
  have r0: "filteredRowsOf env p (initialState p) = rows"
    by (simp add: rows_def s0_def)
  have r1: "filteredRowsOf env p s1 = rows" and r2: "filteredRowsOf env p s2 = rows"
    by (simp_all add: s1_def s2_def rows_def filteredRowsOf_displayedCount)
  have v: "view s0 = Table" "view s1 = Table" "view s2 = Table"
    by (simp_all add: s0_def s1_def s2_def initialState_def)
  have c: "displayedCount s0 = d" "displayedCount s1 = MAX_SAFE_INTEGER" "displayedCount s2 = d"
    by (simp_all add: s0_def s1_def s2_def initialState_def d)
  from less small have m: "d < MAX_SAFE_INTEGER" "0 \<le> MAX_SAFE_INTEGER"
    using d0 by simp_all
  have step1: "step env p s0 ClickShowMore = s1"
    using button_table [OF all v(1), of env] less
    by (simp add: step_def c s1_def r0 rows_def [symmetric])
  have step2: "step env p s1 ClickShowLess = s2"
    using button_table [OF all v(2), of env] small m
    by (simp add: step_def c s2_def r0 r1 d)
  have run0: "run env p [] = s0" and run1: "run env p [ClickShowMore] = s1"
    and run2: "run env p [ClickShowMore, ClickShowLess] = s2"
    by (simp_all add: run_def s0_def [symmetric] step1 step2)
  have p0: "paginated (render env p s0) = Some (take (nat d) rows, int (length rows) - d)"
    using less d0
    by (simp add: paginated_table [OF v(1) shown] c d rows_def [symmetric] r0
          slice_from_0 footer_def)
  have p1: "paginated (render env p s1) = Some (rows, 0)"
    using small m show_all [of rows d]
    by (simp add: paginated_table [OF v(2) shown] c d r0 r1)
  have p2: "paginated (render env p s2) = Some (take (nat d) rows, int (length rows) - d)"
    using less d0
    by (simp add: paginated_table [OF v(3) shown] c d r0 r2 slice_from_0 footer_def)
  from p0 p1 p2 c show ?thesis
    by (simp add: run0 run1 run2 r0)
qed

text \<open>
  Claim C6. For every row sequence and every count \<open>n\<close> (a number \<open>n \<ge> 0\<close>), the
  metadata rows of the table body are exactly the first \<open>min n (length rows)\<close> rows, and
  the number announced as not shown is \<open>max 0 (length rows - n)\<close>. With the count
  \<open>Number.MAX_SAFE_INTEGER\<close> the body holds all rows and none is announced as not shown;
  an array is never longer than that number. The table the component renders shows
  this of its filtered rows and its displayed count.
\<close>

theorem table_pagination:
  assumes "0 \<le> n"
  shows "rowsOfBody (tbody rows n) = take (nat (min n (int (length rows)))) rows
         \<and> slice rows 0 n = take (nat n) rows
         \<and> remainder (footer byDefault n rows) = max 0 (int (length rows) - n)
         \<and> (int (length rows) \<le> MAX_SAFE_INTEGER \<longrightarrow>
              rowsOfBody (tbody rows MAX_SAFE_INTEGER) = rows
              \<and> remainder (footer byDefault MAX_SAFE_INTEGER rows) = 0)
         \<and> (view s = Table \<and> displayedCount s = n
              \<and> \<not> (truthy_node (emptyState p) \<and> allRowsOf p = []) \<longrightarrow>
              paginated (render env p s) =
                Some (take (nat (min n (int (length (filteredRowsOf env p s)))))
                        (filteredRowsOf env p s),
                      max 0 (int (length (filteredRowsOf env p s)) - n)))
         \<and> (view s' = Table \<and> displayedCount s' = MAX_SAFE_INTEGER
              \<and> \<not> (truthy_node (emptyState p) \<and> allRowsOf p = [])
              \<and> int (length (filteredRowsOf env p s')) \<le> MAX_SAFE_INTEGER \<longrightarrow>
              paginated (render env p s') = Some (filteredRowsOf env p s', 0))"
proof -
  note sl = slice_prefix [OF assms]
  note rem = remainder_footer
  note all = show_all
  have a: "rowsOfBody (tbody rows n) = take (nat (min n (int (length rows)))) rows"
    by (simp only: rowsOfBody_tbody sl)
  have b: "slice rows 0 n = take (nat n) rows"
    using assms by (rule slice_from_0)
  have c: "remainder (footer byDefault n rows) = max 0 (int (length rows) - n)"
    by (rule rem)
  have d: "rowsOfBody (tbody rows MAX_SAFE_INTEGER) = rows
           \<and> remainder (footer byDefault MAX_SAFE_INTEGER rows) = 0"
    if "int (length rows) \<le> MAX_SAFE_INTEGER"
    using all [OF that, of byDefault] by (simp add: rowsOfBody_tbody)
  have e: "paginated (render env p s) =
                Some (take (nat (min n (int (length (filteredRowsOf env p s)))))
                        (filteredRowsOf env p s),
                      max 0 (int (length (filteredRowsOf env p s)) - n))"
    if "view s = Table" "displayedCount s = n"
       "\<not> (truthy_node (emptyState p) \<and> allRowsOf p = [])"
    using paginated_table [OF that(1) that(3), of env]
    by (simp only: that(2) sl rem)
  have f: "paginated (render env p s') = Some (filteredRowsOf env p s', 0)"
    if "view s' = Table" "displayedCount s' = MAX_SAFE_INTEGER"
       "\<not> (truthy_node (emptyState p) \<and> allRowsOf p = [])"
       "int (length (filteredRowsOf env p s')) \<le> MAX_SAFE_INTEGER"
    using paginated_table [OF that(1) that(3), of env] all [OF that(4), of "displayedByDefaultOf p"]
    by (simp add: that(2))
  from a b c d e f show ?thesis by blast
qed


theorem table_pagination_witness:
  "(0::int) \<le> 2
   \<and> view (initialState exPagedProps) = Table
   \<and> displayedCount (initialState exPagedProps) = 2
   \<and> map (\<lambda>r. label (entry r)) (rowsOfBody (tbody exRows 2)) = [''b'', ''c'']
   \<and> remainder (footer 100 2 exRows) = 2
   \<and> rowsOfBody (tbody exRows MAX_SAFE_INTEGER) = exRows
   \<and> map_option (\<lambda>(rs, k). (map (\<lambda>r. label (entry r)) rs, k))
        (paginated (render exEnv exPagedProps (initialState exPagedProps))) =
       Some ([''dagster/column_schema'', ''Row Count''], 1)"
proof -
  let ?s = "initialState exPagedProps"
  have n: "(0::int) \<le> 2" by simp
  have v: "view ?s = Table"
    by (simp add: initialState_def)
  have c: "displayedCount ?s = 2"
    by (simp add: initialState_def displayedByDefaultOf_def exPagedProps_def)
  have e: "\<not> (truthy_node (emptyState exPagedProps) \<and> allRowsOf exPagedProps = [])"
    by (simp add: exPagedProps_def exEmptyProps_def)
  have len: "length exRows = 4"
    by (simp add: ex_defs)
  then have small: "int (length exRows) \<le> MAX_SAFE_INTEGER"
    by (simp add: MAX_SAFE_INTEGER_def)
  have two: "map (\<lambda>r. label (entry r)) (take 2 exRows) = [''b'', ''c'']"
    by (simp add: ex_defs)
  have rows: "map (\<lambda>r. label (entry r)) (filteredRowsOf exEnv exPagedProps ?s) =
      [''dagster/column_schema'', ''Row Count'', ''owner'']"
    by (simp add: filteredRowsOf_def allRowsOf_def initialState_def exPagedProps_def
          exEmptyProps_def ex_filter_defs)
  then have "length (map (\<lambda>r. label (entry r)) (filteredRowsOf exEnv exPagedProps ?s)) = 3"
    by simp
  then have len3: "length (filteredRowsOf exEnv exPagedProps ?s) = 3"
    by simp
  from rows have "take 2 (map (\<lambda>r. label (entry r)) (filteredRowsOf exEnv exPagedProps ?s)) =
      [''dagster/column_schema'', ''Row Count'']"
    by simp
  then have first: "map (\<lambda>r. label (entry r)) (take 2 (filteredRowsOf exEnv exPagedProps ?s)) =
      [''dagster/column_schema'', ''Row Count'']"
    by (simp add: take_map)
  note pg = table_pagination [OF n, where rows = exRows and byDefault = 100 and s = ?s
      and p = exPagedProps and env = exEnv and s' = ?s]
  from pg small have "rowsOfBody (tbody exRows MAX_SAFE_INTEGER) = exRows"
    by blast
  moreover from pg len have "rowsOfBody (tbody exRows 2) = take 2 exRows"
    by simp
  moreover from pg len have "remainder (footer 100 2 exRows) = 2"
    by simp
  moreover from pg v c e len3
  have "paginated (render exEnv exPagedProps ?s) =
      Some (take 2 (filteredRowsOf exEnv exPagedProps ?s), 1)"
    by simp
  ultimately show ?thesis using n v c two first by simp
qed

text \<open>
  Claim C7. If the merged sequence is empty and the \<open>emptyState\<close> property is there
  (truthy, as the test of line 143 reads it), the component returns that very node
  instead of a table; so it does when event, observations and definition metadata are
  all absent. If the merged sequence is not empty but the filtered one is, the body of
  the table, which the table view shows, is the single row "No metadata entries".
\<close>

theorem render_empty_state:
  "(truthy_node (emptyState p) \<and> allRowsOf p = [] \<longrightarrow>
      render (env :: 'v env) p s = EmptyState (emptyState p))
   \<and> (allRowsOf p \<noteq> [] \<and> filteredRowsOf env p s = [] \<and> view s = Table \<longrightarrow>
        render env p s =
          Fragment (truthy_flag (showFilter p))
            (Some \<lparr>body = [NoMetadataEntries],
                   button = footer (displayedByDefaultOf p) (displayedCount s)
                              ([] :: 'v row list)\<rparr>)
            None)
   \<and> (truthy_node (emptyState p) \<and> event p = None \<and> observations p = None
        \<and> definitionMetadata p = None \<longrightarrow>
        render env p s = EmptyState (emptyState p))"
proof -
  have none: "allRowsOf p = []"
    if "event p = None" "observations p = None" "definitionMetadata p = None"
    using that
    by (simp add: allRowsOf_def allRows_def uniqBy_def observationRows_def eventRows_def
          definitionRows_def)
  have "render env p s = EmptyState (emptyState p)"
    if "truthy_node (emptyState p)" "allRowsOf p = []"
    using that by (simp add: render_def)
  moreover have "render env p s =
          Fragment (truthy_flag (showFilter p))
            (Some \<lparr>body = [NoMetadataEntries],
                   button = footer (displayedByDefaultOf p) (displayedCount s)
                              ([] :: 'v row list)\<rparr>)
            None"
    if "allRowsOf p \<noteq> []" "filteredRowsOf env p s = []" "view s = Table"
    using that by (simp add: render_def tbody_empty)
  ultimately show ?thesis using none by blast
qed

theorem render_empty_state_witness:
  "truthy_node (emptyState (exEmptyProps (RElement ''No metadata'')))
   \<and> allRowsOf (exEmptyProps (RElement ''No metadata'')) = []
   \<and> render exEnv (exEmptyProps (RElement ''No metadata''))
        (initialState (exEmptyProps (RElement ''No metadata''))) =
      EmptyState (RElement ''No metadata'')
   \<and> allRowsOf exHiddenProps \<noteq> []
   \<and> filteredRowsOf exEnv exHiddenProps (initialState exHiddenProps) = []
   \<and> view (initialState exHiddenProps) = Table
   \<and> render exEnv exHiddenProps (initialState exHiddenProps) =
      Fragment False (Some \<lparr>body = [NoMetadataEntries], button = NoButton\<rparr>) None"
proof -
  let ?p = "exEmptyProps (RElement ''No metadata'')"
  note ex_render_defs = render_def allRowsOf_def filteredRowsOf_def exEmptyProps_def
    exHiddenProps_def initialState_def displayedByDefaultOf_def
  have t: "truthy_node (emptyState ?p)"
    by (simp add: exEmptyProps_def)
  have e: "allRowsOf ?p = []"
    by (simp add: ex_render_defs allRows_def uniqBy_def observationRows_def eventRows_def
          definitionRows_def)
  have es: "emptyState ?p = RElement ''No metadata''"
    by (simp add: exEmptyProps_def)
  have n: "allRowsOf exHiddenProps \<noteq> []"
    by (simp add: ex_render_defs allRows_def uniqBy_def observationRows_def eventRows_def
          definitionRows_def)
  have f: "filteredRowsOf exEnv exHiddenProps (initialState exHiddenProps) = []"
    by (simp add: ex_render_defs ex_filter_defs)
  have v: "view (initialState exHiddenProps) = Table"
    by (simp add: initialState_def)
  have b: "footer (displayedByDefaultOf exHiddenProps)
             (displayedCount (initialState exHiddenProps)) ([] :: unit row list) = NoButton"
    by (simp add: footer_def initialState_def displayedByDefaultOf_def exHiddenProps_def
          exEmptyProps_def)
  have sf: "truthy_flag (showFilter exHiddenProps) = False"
    by (simp add: truthy_flag_def exHiddenProps_def exEmptyProps_def)
  from render_empty_state [of ?p exEnv "initialState ?p"] t e es
  have "render exEnv ?p (initialState ?p) = EmptyState (RElement ''No metadata'')"
    by simp
  moreover from render_empty_state [of exHiddenProps exEnv "initialState exHiddenProps"] n f v b sf
  have "render exEnv exHiddenProps (initialState exHiddenProps) =
      Fragment False (Some \<lparr>body = [NoMetadataEntries], button = NoButton\<rparr>) None"
    by simp
  ultimately show ?thesis using t e n f v by simp
qed

text \<open>
  Claim C8. The displayed count starts at the \<open>displayedByDefault\<close> the caller supplies
  (100 when it supplies none), the handler of "show more" sets it to
  \<open>Number.MAX_SAFE_INTEGER\<close>, the handler of "show less" sets it back to
  \<open>displayedByDefault\<close>, and after any sequence of actions it is one of these two
  values; when the properties change between renders it is that number or a default
  the caller has supplied. With a default \<open>n\<close> below the number of filtered rows the
  table shows the first \<open>n\<close> rows and announces the rest, after "show more" it shows
  all rows and announces none, after "show less" it is back where it started. With 150
  filtered rows and \<open>displayedByDefault = 100\<close> that is 100 rows and 50 more, then 150
  and none, then 100 and 50 again.
\<close>

theorem displayedCount_transitions:
  "displayedCount (initialState p) = (case displayedByDefault p of None \<Rightarrow> 100 | Some d \<Rightarrow> d)
   \<and> displayedCount (handler p s ClickShowMore) = MAX_SAFE_INTEGER
   \<and> displayedCount (handler p s ClickShowLess) =
       (case displayedByDefault p of None \<Rightarrow> 100 | Some d \<Rightarrow> d)
   \<and> displayedCount (run env p as)
       \<in> {case displayedByDefault p of None \<Rightarrow> 100 | Some d \<Rightarrow> d, MAX_SAFE_INTEGER}
   \<and> displayedCount (runWith env p pas)
       \<in> insert MAX_SAFE_INTEGER
           ((\<lambda>q. case displayedByDefault q of None \<Rightarrow> 100 | Some d \<Rightarrow> d)
              ` insert p (fst ` set pas))
   \<and> (displayedByDefault p = Some n \<and> 0 \<le> n
        \<and> n < int (length (filteredRowsOf env p (initialState p)))
        \<and> int (length (filteredRowsOf env p (initialState p))) \<le> MAX_SAFE_INTEGER \<longrightarrow>
        paginated (render env p (run env p [])) =
           Some (take (nat n) (filteredRowsOf env p (initialState p)),
                 int (length (filteredRowsOf env p (initialState p))) - n)
         \<and> displayedCount (run env p [ClickShowMore]) = MAX_SAFE_INTEGER
         \<and> paginated (render env p (run env p [ClickShowMore])) =
             Some (filteredRowsOf env p (initialState p), 0)
         \<and> displayedCount (run env p [ClickShowMore, ClickShowLess]) = n
         \<and> paginated (render env p (run env p [ClickShowMore, ClickShowLess])) =
             Some (take (nat n) (filteredRowsOf env p (initialState p)),
                   int (length (filteredRowsOf env p (initialState p))) - n))
   \<and> ((case displayedByDefault p of None \<Rightarrow> 100 | Some d \<Rightarrow> d) = 100
        \<and> length (filteredRowsOf env p (initialState p)) = 150 \<longrightarrow>
        prefixAndRemainder (render env p (run env p [])) = Some (100, 50)
        \<and> displayedCount (run env p [ClickShowMore]) = MAX_SAFE_INTEGER
        \<and> prefixAndRemainder (render env p (run env p [ClickShowMore])) = Some (150, 0)
        \<and> displayedCount (run env p [ClickShowMore, ClickShowLess]) = 100
        \<and> prefixAndRemainder (render env p (run env p [ClickShowMore, ClickShowLess])) =
            Some (100, 50))"
proof -
  have dflt: "(\<lambda>q :: ('a, 'b) Props. case displayedByDefault q of None \<Rightarrow> 100 | Some d \<Rightarrow> d)
      = displayedByDefaultOf"
    by (simp add: displayedByDefaultOf_def fun_eq_iff)
  have dp: "(case displayedByDefault p of None \<Rightarrow> 100 | Some d \<Rightarrow> d) = displayedByDefaultOf p"
    by (simp add: displayedByDefaultOf_def)
  have init: "displayedCount (initialState p) = displayedByDefaultOf p"
    by (simp add: initialState_def)
  have more: "displayedCount (handler p s ClickShowMore) = MAX_SAFE_INTEGER"
    by simp
  have less: "displayedCount (handler p s ClickShowLess) = displayedByDefaultOf p"
    by simp
  have inv: "displayedCount (run env p as) \<in> {displayedByDefaultOf p, MAX_SAFE_INTEGER}"
    unfolding run_def by (rule foldl_step_displayedCount) (simp add: init)
  have inv2: "displayedCount (runWith env p pas)
       \<in> insert MAX_SAFE_INTEGER (displayedByDefaultOf ` insert p (fst ` set pas))"
    unfolding runWith_def by (rule foldl_step_changing_props) (auto simp: init)
  have general:
    "paginated (render env p (run env p [])) =
           Some (take (nat n) (filteredRowsOf env p (initialState p)),
                 int (length (filteredRowsOf env p (initialState p))) - n)
         \<and> displayedCount (run env p [ClickShowMore]) = MAX_SAFE_INTEGER
         \<and> paginated (render env p (run env p [ClickShowMore])) =
             Some (filteredRowsOf env p (initialState p), 0)
         \<and> displayedCount (run env p [ClickShowMore, ClickShowLess]) = n
         \<and> paginated (render env p (run env p [ClickShowMore, ClickShowLess])) =
             Some (take (nat n) (filteredRowsOf env p (initialState p)),
                   int (length (filteredRowsOf env p (initialState p))) - n)"
    if "displayedByDefault p = Some n" "0 \<le> n"
      "n < int (length (filteredRowsOf env p (initialState p)))"
      "int (length (filteredRowsOf env p (initialState p))) \<le> MAX_SAFE_INTEGER"
  proof -
    from that(1) have "displayedByDefaultOf p = n"
      by (simp add: displayedByDefaultOf_def)
    then show ?thesis using that(2-4) by (rule show_more_less_scenario)
  qed
  have scenario:
    "prefixAndRemainder (render env p (run env p [])) = Some (100, 50)
     \<and> displayedCount (run env p [ClickShowMore]) = MAX_SAFE_INTEGER
     \<and> prefixAndRemainder (render env p (run env p [ClickShowMore])) = Some (150, 0)
     \<and> displayedCount (run env p [ClickShowMore, ClickShowLess]) = 100
     \<and> prefixAndRemainder (render env p (run env p [ClickShowMore, ClickShowLess])) =
          Some (100, 50)"
    if d: "displayedByDefaultOf p = 100"
      and len: "length (filteredRowsOf env p (initialState p)) = 150"
  proof -
    have "(0::int) \<le> 100" by simp
    moreover have "100 < int (length (filteredRowsOf env p (initialState p)))"
      by (simp add: len)
    moreover have "int (length (filteredRowsOf env p (initialState p))) \<le> MAX_SAFE_INTEGER"
      by (simp add: len MAX_SAFE_INTEGER_def)
    ultimately show ?thesis
      using show_more_less_scenario [OF d, of env] len
      by (simp add: prefixAndRemainder_paginated)
  qed
  from init more less inv inv2 general scenario show ?thesis
    unfolding dflt dp by blast
qed

theorem displayedCount_transitions_witness:
  "displayedByDefault exPagedProps = Some 2
   \<and> displayedCount (initialState exPagedProps) = 2
   \<and> map (\<lambda>r. label (entry r)) (filteredRowsOf exEnv exPagedProps (initialState exPagedProps))
       = [''dagster/column_schema'', ''Row Count'', ''owner'']
   \<and> map_option (\<lambda>(rs, k). (length rs, k))
        (paginated (render exEnv exPagedProps (run exEnv exPagedProps []))) = Some (2, 1)
   \<and> map_option (\<lambda>(rs, k). (length rs, k))
        (paginated (render exEnv exPagedProps (run exEnv exPagedProps [ClickShowMore])))
       = Some (3, 0)
   \<and> displayedCount (run exEnv exPagedProps [ClickShowMore, ClickShowLess]) = 2
   \<and> map_option (\<lambda>(rs, k). (length rs, k))
        (paginated (render exEnv exPagedProps
           (run exEnv exPagedProps [ClickShowMore, ClickShowLess]))) = Some (2, 1)
   \<and> (case displayedByDefault exBigProps of None \<Rightarrow> 100 | Some d \<Rightarrow> d) = 100
   \<and> length (filteredRowsOf exEnv exBigProps (initialState exBigProps)) = 150
   \<and> prefixAndRemainder (render exEnv exBigProps (run exEnv exBigProps [])) = Some (100, 50)
   \<and> prefixAndRemainder (render exEnv exBigProps (run exEnv exBigProps [ClickShowMore])) =
       Some (150, 0)
   \<and> prefixAndRemainder
        (render exEnv exBigProps (run exEnv exBigProps [ClickShowMore, ClickShowLess])) =
       Some (100, 50)"
proof -
  let ?s = "initialState exPagedProps"
  have d2: "displayedByDefault exPagedProps = Some 2"
    by (simp add: exPagedProps_def)
  have rows: "map (\<lambda>r. label (entry r)) (filteredRowsOf exEnv exPagedProps ?s) =
      [''dagster/column_schema'', ''Row Count'', ''owner'']"
    by (simp add: filteredRowsOf_def allRowsOf_def initialState_def exPagedProps_def
          exEmptyProps_def ex_filter_defs)
  then have "length (map (\<lambda>r. label (entry r)) (filteredRowsOf exEnv exPagedProps ?s)) = 3"
    by simp
  then have len3: "length (filteredRowsOf exEnv exPagedProps ?s) = 3"
    by simp
  have small: "(3::int) \<le> MAX_SAFE_INTEGER"
    by (simp add: MAX_SAFE_INTEGER_def)
  note paged = displayedCount_transitions [where p = exPagedProps and s = ?s and env = exEnv
      and as = "[]" and pas = "[]" and n = 2]
  from paged d2 have i: "displayedCount ?s = 2"
    by simp
  from paged d2 len3 small
  have sc: "paginated (render exEnv exPagedProps (run exEnv exPagedProps [])) =
           Some (take 2 (filteredRowsOf exEnv exPagedProps ?s), 1)
         \<and> paginated (render exEnv exPagedProps (run exEnv exPagedProps [ClickShowMore])) =
             Some (filteredRowsOf exEnv exPagedProps ?s, 0)
         \<and> displayedCount (run exEnv exPagedProps [ClickShowMore, ClickShowLess]) = 2
         \<and> paginated (render exEnv exPagedProps
              (run exEnv exPagedProps [ClickShowMore, ClickShowLess])) =
             Some (take 2 (filteredRowsOf exEnv exPagedProps ?s), 1)"
    by simp
  have d100: "(case displayedByDefault exBigProps of None \<Rightarrow> 100 | Some d \<Rightarrow> d) = 100"
    by (simp add: exBigProps_def)
  note big = displayedCount_transitions [where p = exBigProps and s = "initialState exBigProps"
      and env = exEnv and as = "[]" and pas = "[]" and n = 100]
  from big d100 exBig_len
  have b: "prefixAndRemainder (render exEnv exBigProps (run exEnv exBigProps [])) = Some (100, 50)
   \<and> prefixAndRemainder (render exEnv exBigProps (run exEnv exBigProps [ClickShowMore])) =
       Some (150, 0)
   \<and> prefixAndRemainder
        (render exEnv exBigProps (run exEnv exBigProps [ClickShowMore, ClickShowLess])) =
       Some (100, 50)"
    by blast
  from d2 i rows sc len3 d100 exBig_len b show ?thesis by simp
qed

end
